theory Spec2Isabelle
  imports Complex_Main "HOL-Library.Char_ord" "HOL-Library.List_Lexorder" "HOL-Library.Multiset"
begin

section \<open>Python values and the builtins the backtest engine calls\<close>

text \<open>
  The engine (\<^verbatim>\<open>backtest_feed.py\<close>, \<^verbatim>\<open>pt_backtest.py\<close>) decodes every raw
  history row with \<^verbatim>\<open>ast.literal_eval\<close>, reads fields of the decoded value by
  subscript and converts them with \<^verbatim>\<open>float\<close>. A decoded value is one of the
  Python literals \<^verbatim>\<open>literal_eval\<close> can build.

  A Python \<^verbatim>\<open>float\<close> is modelled by the real number it denotes: arithmetic is
  exact, and NaN, the infinities and the \<^verbatim>\<open>OverflowError\<close> of \<^verbatim>\<open>float\<close>
  on an integer beyond the double range are outside the model. Strings are byte
  strings (ASCII).
\<close>

datatype py_error =
    SyntaxError | ValueError | TypeError | IndexError | KeyError | ZeroDivisionError
  | FileNotFoundError | NotADirectoryError | PermissionError
  | SystemExit string

datatype pyval =
    PNone
  | PEllipsis
  | PBool bool
  | PInt int
  | PFloat real
  | PComplex real real
  | PStr string
  | PBytes string
  | PTuple "pyval list"
  | PList "pyval list"
  | PSet "pyval list"
  | PDict "(pyval \<times> pyval) list"

type_synonym 'a result = "py_error + 'a"

text \<open>
  The environment of a run: the library and operating-system functions the engine
  calls but does not define.
  \<^item> \<open>literal_eval\<close> is \<^verbatim>\<open>ast.literal_eval\<close> on a raw row;
  \<^item> \<open>str_to_float\<close> is \<^verbatim>\<open>float\<close> applied to a \<^verbatim>\<open>str\<close> or \<^verbatim>\<open>bytes\<close>;
  \<^item> \<open>load_history\<close>: Modelled from the spec: \<^verbatim>\<open>pt_trainer.load_history\<close> is not
    part of the sources at hand; the specification describes it as
    \<^verbatim>\<open>load_history(symbol, timeframe, start, end, source, root)\<close> returning a sequence
    of raw serialized records. Every call site passes \<^verbatim>\<open>start=inf\<close>,
    \<^verbatim>\<open>end=0.0\<close>, \<^verbatim>\<open>source="csv"\<close>, so the function is taken on symbol,
    timeframe and root;
  \<^item> \<open>listdir\<close>, \<open>isdir\<close>, \<open>abspath\<close> are \<^verbatim>\<open>os.listdir\<close>,
    \<^verbatim>\<open>os.path.isdir\<close>, \<^verbatim>\<open>os.path.abspath\<close>;
  \<^item> \<open>now\<close> is the reading of \<^verbatim>\<open>int(time.time())\<close> (the clock does not advance
    in the model).
\<close>

record runtime =
  literal_eval :: "string \<Rightarrow> pyval result"
  str_to_float :: "string \<Rightarrow> real result"
  load_history :: "string \<Rightarrow> string \<Rightarrow> string \<Rightarrow> string list"
  listdir :: "string \<Rightarrow> string list result"
  isdir :: "string \<Rightarrow> bool"
  abspath :: "string \<Rightarrow> string"
  now :: int

text \<open>\<^verbatim>\<open>k == i\<close> for a dictionary key \<open>k\<close> and the integer \<open>i\<close>: numbers compare by
  value across \<^verbatim>\<open>bool\<close>, \<^verbatim>\<open>int\<close>, \<^verbatim>\<open>float\<close> and \<^verbatim>\<open>complex\<close>.\<close>

fun key_eq_int :: "pyval \<Rightarrow> int \<Rightarrow> bool" where
  "key_eq_int (PBool b) i = ((if b then 1 else 0) = i)"
| "key_eq_int (PInt n) i = (n = i)"
| "key_eq_int (PFloat r) i = (r = of_int i)"
| "key_eq_int (PComplex re im) i = (re = of_int i \<and> im = 0)"
| "key_eq_int _ i = False"

fun dict_get :: "(pyval \<times> pyval) list \<Rightarrow> nat \<Rightarrow> pyval result" where
  "dict_get [] i = Inl KeyError"
| "dict_get ((k, v) # kvs) i = (if key_eq_int k (int i) then Inr v else dict_get kvs i)"

text \<open>\<^verbatim>\<open>vals[i]\<close> for a constant index \<open>i \<ge> 0\<close> (the engine uses 0 to 4).\<close>

fun subscript :: "pyval \<Rightarrow> nat \<Rightarrow> pyval result" where
  "subscript (PTuple xs) i = (if i < length xs then Inr (xs ! i) else Inl IndexError)"
| "subscript (PList xs) i = (if i < length xs then Inr (xs ! i) else Inl IndexError)"
| "subscript (PStr s) i = (if i < length s then Inr (PStr [s ! i]) else Inl IndexError)"
| "subscript (PBytes s) i =
     (if i < length s then Inr (PInt (of_char (s ! i))) else Inl IndexError)"
| "subscript (PDict kvs) i = dict_get kvs i"
| "subscript _ i = Inl TypeError"

text \<open>\<^verbatim>\<open>float(v)\<close>.\<close>

fun py_float :: "runtime \<Rightarrow> pyval \<Rightarrow> real result" where
  "py_float rt (PBool b) = Inr (if b then 1 else 0)"
| "py_float rt (PInt n) = Inr (of_int n)"
| "py_float rt (PFloat r) = Inr r"
| "py_float rt (PStr s) = str_to_float rt s"
| "py_float rt (PBytes s) = str_to_float rt s"
| "py_float rt _ = Inl TypeError"

text \<open>Sequencing of statements that may raise: the first exception ends the block.\<close>

definition raising :: "'a result \<Rightarrow> ('a \<Rightarrow> 'b result) \<Rightarrow> 'b result" where
  "raising m f = (case m of Inl e \<Rightarrow> Inl e | Inr x \<Rightarrow> f x)"

text \<open>\<^verbatim>\<open>float(vals[i])\<close>: the subscript, then the conversion.\<close>

definition field :: "runtime \<Rightarrow> pyval \<Rightarrow> nat \<Rightarrow> real result" where
  "field rt vals i = raising (subscript vals i) (py_float rt)"

text \<open>\<^verbatim>\<open>len(v)\<close> of a positional sequence (list, tuple, str, bytes).\<close>

fun is_sequence :: "pyval \<Rightarrow> bool" where
  "is_sequence (PTuple xs) = True"
| "is_sequence (PList xs) = True"
| "is_sequence (PStr s) = True"
| "is_sequence (PBytes s) = True"
| "is_sequence _ = False"

fun py_len :: "pyval \<Rightarrow> nat" where
  "py_len (PTuple xs) = length xs"
| "py_len (PList xs) = length xs"
| "py_len (PStr s) = length s"
| "py_len (PBytes s) = length s"
| "py_len (PSet xs) = length xs"
| "py_len (PDict kvs) = length kvs"
| "py_len _ = 0"

section \<open>The two candle parsers\<close>

subsection \<open>\<^verbatim>\<open>BacktestPriceReplay._parse_rows\<close> (backtest\_feed.py)\<close>

text \<open>
  The body of the \<^verbatim>\<open>try\<close> block for one raw row: \<^verbatim>\<open>vals = ast.literal_eval(raw)\<close>,
  \<^verbatim>\<open>ts = float(vals[0])\<close>, \<^verbatim>\<open>close_price = float(vals[2])\<close>.
\<close>

definition decode_close :: "runtime \<Rightarrow> string \<Rightarrow> (real \<times> real) result" where
  "decode_close rt raw =
     raising (literal_eval rt raw) (\<lambda>vals.
     raising (field rt vals 0) (\<lambda>ts.
     raising (field rt vals 2) (\<lambda>close_price.
     Inr (ts, close_price))))"

text \<open>The \<^verbatim>\<open>for raw in rows\<close> loop: \<^verbatim>\<open>except Exception: continue\<close> skips the row,
  otherwise the pair is appended to \<open>parsed\<close>.\<close>

fun parse_rows_loop :: "runtime \<Rightarrow> string list \<Rightarrow> (real \<times> real) list \<Rightarrow> (real \<times> real) list" where
  "parse_rows_loop rt [] parsed = parsed"
| "parse_rows_loop rt (raw # rows) parsed =
     (case decode_close rt raw of
        Inl e \<Rightarrow> parse_rows_loop rt rows parsed
      | Inr p \<Rightarrow> parse_rows_loop rt rows (parsed @ [p]))"

text \<open>\<^verbatim>\<open>parsed.sort(key=lambda x: x[0])\<close> is a stable sort on the timestamp.\<close>

definition parse_rows :: "runtime \<Rightarrow> string list \<Rightarrow> (real \<times> real) list" where
  "parse_rows rt rows = sort_key fst (parse_rows_loop rt rows [])"

subsection \<open>\<^verbatim>\<open>_parse_history_rows\<close> (pt\_backtest.py)\<close>

type_synonym candle = "real \<times> real \<times> real \<times> real \<times> real"

definition decode_candle :: "runtime \<Rightarrow> string \<Rightarrow> candle result" where
  "decode_candle rt raw =
     raising (literal_eval rt raw) (\<lambda>values.
     raising (field rt values 0) (\<lambda>ts.
     raising (field rt values 1) (\<lambda>open_price.
     raising (field rt values 2) (\<lambda>close_price.
     raising (field rt values 3) (\<lambda>high_price.
     raising (field rt values 4) (\<lambda>low_price.
     Inr (ts, open_price, close_price, high_price, low_price)))))))"

fun parse_history_loop :: "runtime \<Rightarrow> string list \<Rightarrow> candle list \<Rightarrow> candle list" where
  "parse_history_loop rt [] parsed = parsed"
| "parse_history_loop rt (raw # raw_rows) parsed =
     (case decode_candle rt raw of
        Inl e \<Rightarrow> parse_history_loop rt raw_rows parsed
      | Inr c \<Rightarrow> parse_history_loop rt raw_rows (parsed @ [c]))"

definition parse_history_rows :: "runtime \<Rightarrow> string list \<Rightarrow> candle list" where
  "parse_history_rows rt raw_rows = parse_history_loop rt raw_rows []"

section \<open>The price replay stream (backtest\_feed.py)\<close>

text \<open>\<^verbatim>\<open>str.upper\<close> and \<^verbatim>\<open>str.strip\<close> on ASCII strings. The whitespace
  \<^verbatim>\<open>strip\<close> removes is tab, line feed, vertical tab, form feed, carriage return,
  the separators 28 to 31 and the space.\<close>

definition upper_char :: "char \<Rightarrow> char" where
  "upper_char c =
     (let n = (of_char c :: nat) in if 97 \<le> n \<and> n \<le> 122 then char_of (n - 32) else c)"

definition upper :: "string \<Rightarrow> string" where
  "upper s = map upper_char s"

definition isspace :: "char \<Rightarrow> bool" where
  "isspace c = (let n = (of_char c :: nat) in (9 \<le> n \<and> n \<le> 13) \<or> (28 \<le> n \<and> n \<le> 32))"

definition strip :: "string \<Rightarrow> string" where
  "strip s = rev (dropWhile isspace (rev (dropWhile isspace s)))"

text \<open>
  A generator object made by \<^verbatim>\<open>_iter_for(sym)\<close>. It holds its argument \<open>sym\<close> and
  is either not started yet, or suspended at a \<^verbatim>\<open>yield\<close> with the prices the
  \<^verbatim>\<open>for\<close> loop has still to deliver (none left: the generator is in, or about to
  enter, the \<^verbatim>\<open>while True\<close> loop).
\<close>

datatype iterator = NotStarted string | Suspended string "real list"

record replay =
  csv_root :: string
  timeframe :: string
  coins :: "string list"
  iters :: "string \<rightharpoonup> iterator"
  last_price :: "string \<rightharpoonup> real"

text \<open>\<^verbatim>\<open>BacktestPriceReplay.__init__\<close>.\<close>

definition replay_init :: "runtime \<Rightarrow> string \<Rightarrow> string \<Rightarrow> string list \<Rightarrow> replay" where
  "replay_init rt dir tf cs =
     \<lparr>csv_root = abspath rt dir,
      timeframe = tf,
      coins = map (\<lambda>c. strip (upper c)) (filter (\<lambda>c. strip c \<noteq> []) cs),
      iters = Map.empty,
      last_price = Map.empty\<rparr>"

text \<open>
  The loops of \<^verbatim>\<open>_iter_for\<close>, from the point where the generator resumes: with a
  price left, \<^verbatim>\<open>self._last_price[sym] = price; yield price\<close>; with none left,
  \<^verbatim>\<open>yield self._last_price.get(sym, 0.0)\<close>. The result is the yielded price, the
  suspended generator and the updated instance.
\<close>

fun iter_for_yield :: "replay \<Rightarrow> string \<Rightarrow> real list \<Rightarrow> real \<times> iterator \<times> replay" where
  "iter_for_yield self symbol (price # rest) =
     (price, Suspended symbol rest, self\<lparr>last_price := (last_price self)(symbol \<mapsto> price)\<rparr>)"
| "iter_for_yield self symbol [] =
     ((case last_price self symbol of Some p \<Rightarrow> p | None \<Rightarrow> 0), Suspended symbol [], self)"

text \<open>\<^verbatim>\<open>next(it)\<close> on a generator of \<^verbatim>\<open>_iter_for\<close>: a generator not yet started
  first loads and parses the history and takes the closes (\<^verbatim>\<open>[0.0]\<close> when there
  are none).\<close>

fun iter_for_next :: "runtime \<Rightarrow> replay \<Rightarrow> iterator \<Rightarrow> real \<times> iterator \<times> replay" where
  "iter_for_next rt self (NotStarted symbol) =
     (let rows = load_history rt symbol (timeframe self) (csv_root self);
          parsed = parse_rows rt rows;
          closes = map snd parsed;
          closes = (if closes = [] then [0] else closes)
      in iter_for_yield self symbol closes)"
| "iter_for_next rt self (Suspended symbol rest) = iter_for_yield self symbol rest"

text \<open>\<^verbatim>\<open>BacktestPriceReplay.next_price\<close>: the price returned and the instance after
  the call.\<close>

definition next_price :: "runtime \<Rightarrow> replay \<Rightarrow> string \<Rightarrow> real \<times> replay" where
  "next_price rt self sym0 =
     (let symbol = strip (upper sym0);
          self = (if symbol \<notin> dom (iters self)
                  then self\<lparr>iters := (iters self)(symbol \<mapsto> NotStarted symbol)\<rparr> else self);
          it = (case iters self symbol of Some it \<Rightarrow> it | None \<Rightarrow> NotStarted symbol);
          (price, it, self) = iter_for_next rt self it;
          self = self\<lparr>iters := (iters self)(symbol \<mapsto> it)\<rparr>;
          self = self\<lparr>last_price := (last_price self)(symbol \<mapsto> price)\<rparr>
      in (price, self))"

text \<open>A caller making one \<^verbatim>\<open>next_price\<close> call per symbol of a list, in order: the
  prices returned and the final instance.\<close>

fun next_prices :: "runtime \<Rightarrow> replay \<Rightarrow> string list \<Rightarrow> real list \<times> replay" where
  "next_prices rt self [] = ([], self)"
| "next_prices rt self (symbol # syms) =
     (let (price, self) = next_price rt self symbol;
          (prices, self) = next_prices rt self syms
      in (price # prices, self))"

text \<open>The closes a symbol's history parses to, as \<^verbatim>\<open>_iter_for\<close> computes them.\<close>

definition parsed_closes :: "runtime \<Rightarrow> replay \<Rightarrow> string \<Rightarrow> real list" where
  "parsed_closes rt self symbol =
     map snd (parse_rows rt (load_history rt symbol (timeframe self) (csv_root self)))"

text \<open>
  Notions for stating what the stream delivers. \<open>feed\<close> is the list the \<^verbatim>\<open>for\<close> loop
  of \<^verbatim>\<open>_iter_for\<close> runs over; \<open>price_at ps k\<close> is the price of call number \<open>k\<close>
  (from 0) on a stream fed with \<open>ps\<close>: the prices in order, then the last one again.
\<close>

definition feed :: "runtime \<Rightarrow> replay \<Rightarrow> string \<Rightarrow> real list" where
  "feed rt self symbol =
     (if parsed_closes rt self symbol = [] then [0] else parsed_closes rt self symbol)"

definition price_at :: "real list \<Rightarrow> nat \<Rightarrow> real" where
  "price_at ps k = (if k < length ps then ps ! k else last ps)"

text \<open>The instance after \<open>n s\<close> calls for each normalised symbol \<open>s\<close>: a symbol never
  asked for has no generator; one asked for \<open>n s\<close> times has its generator suspended
  with the rest of its feed, and the price last delivered as its last price.\<close>

definition served :: "runtime \<Rightarrow> replay \<Rightarrow> (string \<Rightarrow> nat) \<Rightarrow> bool" where
  "served rt self n =
     (\<forall>s. (n s = 0 \<longrightarrow> iters self s = None) \<and>
          (0 < n s \<longrightarrow>
             iters self s = Some (Suspended s (drop (n s) (feed rt self s))) \<and>
             last_price self s = Some (price_at (feed rt self s) (n s - 1))))"

text \<open>The prices a list of calls is expected to return, given each symbol's feed and
  the number of calls already made for it.\<close>

fun expected :: "(string \<Rightarrow> real list) \<Rightarrow> (string \<Rightarrow> nat) \<Rightarrow> string list \<Rightarrow> real list" where
  "expected f n [] = []"
| "expected f n (x # xs) =
     price_at (f (strip (upper x))) (n (strip (upper x)))
       # expected f (n(strip (upper x) := Suc (n (strip (upper x))))) xs"

section \<open>Dataset discovery (pt\_backtest.py)\<close>

text \<open>\<^verbatim>\<open>os.path.join\<close> of two components (POSIX).\<close>

definition path_join :: "string \<Rightarrow> string \<Rightarrow> string" where
  "path_join a b =
     (if b \<noteq> [] \<and> hd b = CHR ''/'' then b
      else if a = [] \<or> last a = CHR ''/'' then a @ b
      else a @ ''/'' @ b)"

text \<open>A \<^verbatim>\<open>defaultdict(list)\<close> in insertion order, and \<^verbatim>\<open>d[k].append(v)\<close> on it.\<close>

type_synonym datasets = "(string \<times> string list) list"

fun dd_append :: "datasets \<Rightarrow> string \<Rightarrow> string \<Rightarrow> datasets" where
  "dd_append [] k v = [(k, [v])]"
| "dd_append ((k', vs) # rest) k v =
     (if k' = k then (k', vs @ [v]) # rest else (k', vs) # dd_append rest k v)"

text \<open>\<^verbatim>\<open>allowed_coins and coin not in allowed_coins\<close>: \<^verbatim>\<open>None\<close> and the empty
  set are both false.\<close>

definition filtered_out :: "string set option \<Rightarrow> string \<Rightarrow> bool" where
  "filtered_out allowed_coins coin =
     (case allowed_coins of None \<Rightarrow> False | Some A \<Rightarrow> A \<noteq> {} \<and> coin \<notin> A)"

fun discover_coins ::
  "runtime \<Rightarrow> string \<Rightarrow> string \<Rightarrow> string set option \<Rightarrow> string list \<Rightarrow> datasets \<Rightarrow> datasets" where
  "discover_coins rt tf_path tf allowed_coins [] ds = ds"
| "discover_coins rt tf_path tf allowed_coins (coin # cs) ds =
     (if filtered_out allowed_coins coin then discover_coins rt tf_path tf allowed_coins cs ds
      else if \<not> isdir rt (path_join tf_path coin)
        then discover_coins rt tf_path tf allowed_coins cs ds
      else discover_coins rt tf_path tf allowed_coins cs (dd_append ds tf coin))"

fun discover_timeframes ::
  "runtime \<Rightarrow> string \<Rightarrow> string set option \<Rightarrow> string list \<Rightarrow> datasets \<Rightarrow> datasets result" where
  "discover_timeframes rt rootdir allowed_coins [] ds = Inr ds"
| "discover_timeframes rt rootdir allowed_coins (tf # tfs) ds =
     (let tf_path = path_join rootdir tf in
      if \<not> isdir rt tf_path then discover_timeframes rt rootdir allowed_coins tfs ds
      else raising (listdir rt tf_path) (\<lambda>cs.
             discover_timeframes rt rootdir allowed_coins tfs
               (discover_coins rt tf_path tf allowed_coins (sort cs) ds)))"

definition discover_datasets :: "runtime \<Rightarrow> string \<Rightarrow> string set option \<Rightarrow> datasets result" where
  "discover_datasets rt rootdir allowed_coins =
     raising (listdir rt rootdir)
       (\<lambda>tfs. discover_timeframes rt rootdir allowed_coins (sort tfs) [])"

text \<open>
  Notions for stating what discovery returns: the coins of one timeframe directory
  that pass the filter and are directories, and the mapping made of the timeframe
  directories that keep at least one coin.
\<close>

definition kept_coins :: "runtime \<Rightarrow> string \<Rightarrow> string set option \<Rightarrow> string list \<Rightarrow> string list" where
  "kept_coins rt tf_path allowed_coins cs =
     filter (\<lambda>coin. \<not> filtered_out allowed_coins coin \<and> isdir rt (path_join tf_path coin)) cs"

definition found :: "runtime \<Rightarrow> string \<Rightarrow> string set option \<Rightarrow> string list \<Rightarrow> datasets" where
  "found rt rootdir allowed_coins tfs =
     filter (\<lambda>(tf, cs). cs \<noteq> [])
       (map (\<lambda>tf. (tf, kept_coins rt (path_join rootdir tf) allowed_coins
                        (sort (projr (listdir rt (path_join rootdir tf))))))
          (filter (\<lambda>tf. isdir rt (path_join rootdir tf)) tfs))"

section \<open>The metrics aggregator (pt\_backtest.py)\<close>

record metrics =
  samples :: nat
  win_rate :: real
  hit_rate :: real
  avg_threshold :: real

text \<open>\<^verbatim>\<open>a / b\<close>: true division raises on a zero divisor.\<close>

definition true_div :: "real \<Rightarrow> real \<Rightarrow> real result" where
  "true_div a b = (if b = 0 then Inl ZeroDivisionError else Inr (a / b))"

text \<open>The \<^verbatim>\<open>for\<close> loop of \<^verbatim>\<open>_calc_metrics\<close> over \<open>wins\<close>, \<open>hits\<close> and
  \<open>thresholds\<close>.\<close>

fun calc_metrics_loop :: "candle list \<Rightarrow> nat \<Rightarrow> nat \<Rightarrow> real list \<Rightarrow> nat \<times> nat \<times> real list" where
  "calc_metrics_loop [] wins hits thresholds = (wins, hits, thresholds)"
| "calc_metrics_loop ((ts, open_price, close_price, high_price, low_price) # rows)
       wins hits thresholds =
     (let wins = (if close_price > open_price then wins + 1 else wins);
          intraday_move = max \<bar>high_price - open_price\<bar> \<bar>open_price - low_price\<bar>;
          hits = (if intraday_move > 0 then hits + 1 else hits)
      in calc_metrics_loop rows wins hits (thresholds @ [\<bar>close_price - open_price\<bar>]))"

definition calc_metrics :: "candle list \<Rightarrow> metrics result" where
  "calc_metrics rows =
     (if rows = [] then
        Inr \<lparr>samples = 0, win_rate = 0, hit_rate = 0, avg_threshold = 0\<rparr>
      else
        (let (wins, hits, thresholds) = calc_metrics_loop rows 0 0 [];
             total = length rows
         in raising (true_div (real wins) (real total)) (\<lambda>wr.
            raising (true_div (real hits) (real total)) (\<lambda>hr.
            raising (if thresholds \<noteq> [] then true_div (sum_list thresholds) (real total)
                     else Inr 0) (\<lambda>avg.
            Inr \<lparr>samples = total, win_rate = wr, hit_rate = hr, avg_threshold = avg\<rparr>)))))"

section \<open>Artifacts and the orchestrator (pt\_backtest.py)\<close>

text \<open>
  The output tree is a map from file paths to contents. A content keeps the values
  written rather than their text: a float written with \<^verbatim>\<open>str\<close> is kept as the
  number, one written with the format \<^verbatim>\<open>.4f\<close> as \<open>Fixed 4 x\<close>. Writes always succeed
  in the model, and directories are implied by the paths.
\<close>

datatype cell = Text string | Number int | Fixed nat real

type_synonym row = "(string \<times> cell) list"

datatype content =
    Memories string
  | MemoryWeights "real list"
  | PerfectThreshold real
  | TrainerStatus row
  | Csv "string list" "row list"

type_synonym files = "string \<rightharpoonup> content"

record args =
  data_dir :: string
  output_dir :: string
  per_coin_logs :: bool
  coin_option :: "string list option"

text \<open>\<^verbatim>\<open>sep.join(xs)\<close>.\<close>

fun join_str :: "string \<Rightarrow> string list \<Rightarrow> string" where
  "join_str sep [] = []"
| "join_str sep [x] = x"
| "join_str sep (x # y # ys) = x @ sep @ join_str sep (y # ys)"

definition write_artifacts ::
  "runtime \<Rightarrow> string \<Rightarrow> string \<Rightarrow> string \<Rightarrow> metrics \<Rightarrow> string list \<Rightarrow> int \<Rightarrow> files \<Rightarrow> files" where
  "write_artifacts rt output_root coin tf m raw_rows started_at fs =
     (let coin_dir = path_join (path_join output_root coin) tf;
          fs = fs(path_join coin_dir (''memories_'' @ tf @ ''.txt'') \<mapsto>
                    Memories (join_str ''~'' raw_rows));
          fs = fs(path_join coin_dir (''memory_weights_'' @ tf @ ''.txt'') \<mapsto>
                    MemoryWeights (replicate 10 (avg_threshold m)));
          fs = fs(path_join coin_dir (''neural_perfect_threshold_'' @ tf @ ''.txt'') \<mapsto>
                    PerfectThreshold (avg_threshold m));
          fs = fs(path_join coin_dir ''trainer_status.json'' \<mapsto>
                    TrainerStatus
                      [(''coin'', Text coin), (''state'', Text ''FINISHED''),
                       (''started_at'', Number started_at),
                       (''finished_at'', Number (now rt)),
                       (''timestamp'', Number (now rt)),
                       (''mode'', Text ''backtest'')])
      in fs)"

definition write_summary :: "string \<Rightarrow> row list \<Rightarrow> files \<Rightarrow> files" where
  "write_summary output_root summary_rows fs =
     fs(path_join output_root ''backtest_report.csv'' \<mapsto>
          Csv [''coin'', ''timeframe'', ''samples'', ''win_rate'', ''hit_rate'', ''avg_threshold'']
              summary_rows)"

definition write_coin_logs :: "string \<Rightarrow> string \<Rightarrow> row list \<Rightarrow> files \<Rightarrow> files" where
  "write_coin_logs output_root coin entries fs =
     (if entries = [] then fs
      else fs(path_join (path_join output_root coin) ''backtest_log.csv'' \<mapsto>
                Csv [''timeframe'', ''samples'', ''win_rate'', ''hit_rate'', ''avg_threshold'']
                    entries))"

text \<open>\<^verbatim>\<open>per_coin_entries[coin].append(entry)\<close> on a \<^verbatim>\<open>defaultdict(list)\<close>.\<close>

fun entries_append :: "(string \<times> row list) list \<Rightarrow> string \<Rightarrow> row \<Rightarrow> (string \<times> row list) list" where
  "entries_append [] k v = [(k, [v])]"
| "entries_append ((k', vs) # rest) k v =
     (if k' = k then (k', vs @ [v]) # rest else (k', vs) # entries_append rest k v)"

text \<open>The state of the loops of \<^verbatim>\<open>main\<close>: \<open>summary_rows\<close>, \<open>per_coin_entries\<close>
  and the output tree.\<close>

type_synonym run_state = "row list \<times> (string \<times> row list) list \<times> files"

text \<open>The body of the inner loop for one dataset. An exception leaves the state as
  it was when it was raised.\<close>

definition run_dataset ::
  "runtime \<Rightarrow> string \<Rightarrow> string \<Rightarrow> string \<Rightarrow> string \<Rightarrow> run_state \<Rightarrow> py_error option \<times> run_state" where
  "run_dataset rt data_root output_root tf coin st =
     (let (summary_rows, per_coin_entries, fs) = st;
          started_at = now rt;
          raw_rows = load_history rt coin tf data_root;
          parsed_rows = parse_history_rows rt raw_rows
      in case calc_metrics parsed_rows of
           Inl e \<Rightarrow> (Some e, st)
         | Inr m \<Rightarrow>
             (let entry = [(''timeframe'', Text tf),
                           (''samples'', Number (int (samples m))),
                           (''win_rate'', Fixed 4 (win_rate m)),
                           (''hit_rate'', Fixed 4 (hit_rate m)),
                           (''avg_threshold'', Fixed 8 (avg_threshold m))];
                  summary_row = (''coin'', Text coin) # entry
              in (None,
                  summary_rows @ [summary_row],
                  entries_append per_coin_entries coin entry,
                  write_artifacts rt output_root coin tf m raw_rows started_at fs)))"

fun run_coins ::
  "runtime \<Rightarrow> string \<Rightarrow> string \<Rightarrow> string \<Rightarrow> string list \<Rightarrow> run_state \<Rightarrow> py_error option \<times> run_state" where
  "run_coins rt data_root output_root tf [] st = (None, st)"
| "run_coins rt data_root output_root tf (coin # cs) st =
     (case run_dataset rt data_root output_root tf coin st of
        (Some e, st) \<Rightarrow> (Some e, st)
      | (None, st) \<Rightarrow> run_coins rt data_root output_root tf cs st)"

fun run_datasets ::
  "runtime \<Rightarrow> string \<Rightarrow> string \<Rightarrow> datasets \<Rightarrow> run_state \<Rightarrow> py_error option \<times> run_state" where
  "run_datasets rt data_root output_root [] st = (None, st)"
| "run_datasets rt data_root output_root ((tf, cs) # ds) st =
     (case run_coins rt data_root output_root tf cs st of
        (Some e, st) \<Rightarrow> (Some e, st)
      | (None, st) \<Rightarrow> run_datasets rt data_root output_root ds st)"

fun write_all_coin_logs :: "string \<Rightarrow> (string \<times> row list) list \<Rightarrow> files \<Rightarrow> files" where
  "write_all_coin_logs output_root [] fs = fs"
| "write_all_coin_logs output_root ((coin, entries) # rest) fs =
     write_all_coin_logs output_root rest (write_coin_logs output_root coin entries fs)"

text \<open>\<^verbatim>\<open>main\<close>, on the parsed command line and the output tree: the exception that
  ended the run, if any, and the output tree it leaves.\<close>

definition main :: "runtime \<Rightarrow> args \<Rightarrow> files \<Rightarrow> py_error option \<times> files" where
  "main rt a fs =
     (let data_root = abspath rt (data_dir a);
          output_root = abspath rt (output_dir a);
          allowed_coins = (case coin_option a of
                             None \<Rightarrow> None
                           | Some cs \<Rightarrow> if cs = [] then None else Some (set cs))
      in case discover_datasets rt data_root allowed_coins of
           Inl e \<Rightarrow> (Some e, fs)
         | Inr ds \<Rightarrow>
             if ds = [] then
               (Some (SystemExit ''No datasets found in the provided data directory''), fs)
             else
               (case run_datasets rt data_root output_root ds ([], [], fs) of
                  (Some e, (summary_rows, per_coin_entries, fs)) \<Rightarrow> (Some e, fs)
                | (None, (summary_rows, per_coin_entries, fs)) \<Rightarrow>
                    (let fs = write_summary output_root summary_rows fs;
                         fs = (if per_coin_logs a
                               then write_all_coin_logs output_root per_coin_entries fs
                               else fs)
                     in (None, fs))))"

text \<open>The exit status of the script: 0 when \<^verbatim>\<open>main\<close> returns; 1 when it ends with
  \<^verbatim>\<open>SystemExit\<close> carrying a message (the interpreter prints the message to the
  error stream) or with any other uncaught exception (the interpreter prints the
  traceback).\<close>

definition exit_status :: "py_error option \<Rightarrow> nat" where
  "exit_status outcome = (case outcome of None \<Rightarrow> 0 | Some e \<Rightarrow> 1)"

section \<open>A sample environment\<close>

text \<open>
  Concrete rows, a concrete history and a concrete directory tree, used to run the
  definitions. On each row listed, \<open>sample_literals\<close> gives what
  \<^verbatim>\<open>ast.literal_eval\<close> returns or raises for that text; rows not listed are not used.
\<close>

definition sample_literals :: "(string \<times> pyval result) list" where
  "sample_literals =
     [(''[1, 10, 12, 13, 9, 0.0]'',
         Inr (PList [PInt 1, PInt 10, PInt 12, PInt 13, PInt 9, PFloat 0])),
      (''[2, 10, 8, 11, 7, 0.0]'',
         Inr (PList [PInt 2, PInt 10, PInt 8, PInt 11, PInt 7, PFloat 0])),
      (''[3, 8, 8.5, 9, 8, 0.0]'',
         Inr (PList [PInt 3, PInt 8, PFloat 8.5, PInt 9, PInt 8, PFloat 0])),
      (''(4, 42.5)'', Inr (PTuple [PInt 4, PFloat 42.5])),
      (''[5, 1, 2, 3]'', Inr (PList [PInt 5, PInt 1, PInt 2, PInt 3])),
      (''[None, 1, 2, 3, 4]'', Inr (PList [PNone, PInt 1, PInt 2, PInt 3, PInt 4])),
      (''[6, 1, 2, 3,'', Inl SyntaxError),
      (''time,open,high,low,close'', Inl ValueError)]"

definition sample_history :: "string \<Rightarrow> string list" where
  "sample_history symbol =
     (if symbol = ''BTC'' then
        [''[3, 8, 8.5, 9, 8, 0.0]'', ''time,open,high,low,close'',
         ''[1, 10, 12, 13, 9, 0.0]'', ''[2, 10, 8, 11, 7, 0.0]'']
      else if symbol = ''ETH'' then [''time,open,high,low,close'', ''(4, 42.5)'']
      else [])"

definition sample_tree :: "(string \<times> string list) list" where
  "sample_tree =
     [(''/data'', [''4hour'', ''notes.txt'', ''1hour'']),
      (''/data/1hour'', [''SOL'', ''ETH'', ''README.md'', ''BTC'']),
      (''/data/1hour/BTC'', [''2024.csv'']),
      (''/data/1hour/ETH'', []),
      (''/data/1hour/SOL'', []),
      (''/data/4hour'', [''ETH'']),
      (''/data/4hour/ETH'', []),
      (''/empty'', [])]"

definition sample_runtime :: runtime where
  "sample_runtime =
     \<lparr>literal_eval = (\<lambda>raw. case map_of sample_literals raw of
                                Some r \<Rightarrow> r | None \<Rightarrow> Inl SyntaxError),
      str_to_float = (\<lambda>s. Inl ValueError),
      load_history = (\<lambda>symbol tf dir. sample_history symbol),
      listdir = (\<lambda>p. case map_of sample_tree p of
                         Some names \<Rightarrow> Inr names | None \<Rightarrow> Inl FileNotFoundError),
      isdir = (\<lambda>p. p \<in> dom (map_of sample_tree)),
      abspath = (\<lambda>p. p),
      now = 1700000000\<rparr>"

section \<open>Properties of the parsers\<close>

lemma parse_rows_loop_eq:
  "parse_rows_loop rt rows parsed =
     parsed @ map (projr \<circ> decode_close rt) (filter (\<lambda>raw. \<not> isl (decode_close rt raw)) rows)"
  by (induction rows arbitrary: parsed) (auto split: sum.splits)

lemma parse_history_loop_eq:
  "parse_history_loop rt rows parsed =
     parsed @ map (projr \<circ> decode_candle rt) (filter (\<lambda>raw. \<not> isl (decode_candle rt raw)) rows)"
  by (induction rows arbitrary: parsed) (auto split: sum.splits)

lemma sample_decode_candle:
  "decode_candle sample_runtime ''[1, 10, 12, 13, 9, 0.0]'' = Inr (1, 10, 12, 13, 9)"
  "decode_candle sample_runtime ''[2, 10, 8, 11, 7, 0.0]'' = Inr (2, 10, 8, 11, 7)"
  "decode_candle sample_runtime ''[3, 8, 8.5, 9, 8, 0.0]'' = Inr (3, 8, 8.5, 9, 8)"
  "decode_candle sample_runtime ''(4, 42.5)'' = Inl IndexError"
  "decode_candle sample_runtime ''[5, 1, 2, 3]'' = Inl IndexError"
  "decode_candle sample_runtime ''[None, 1, 2, 3, 4]'' = Inl TypeError"
  "decode_candle sample_runtime ''[6, 1, 2, 3,'' = Inl SyntaxError"
  "decode_candle sample_runtime ''time,open,high,low,close'' = Inl ValueError"
  by (simp_all add: decode_candle_def sample_runtime_def sample_literals_def raising_def field_def)

lemma sample_decode_close:
  "decode_close sample_runtime ''[1, 10, 12, 13, 9, 0.0]'' = Inr (1, 12)"
  "decode_close sample_runtime ''[2, 10, 8, 11, 7, 0.0]'' = Inr (2, 8)"
  "decode_close sample_runtime ''[3, 8, 8.5, 9, 8, 0.0]'' = Inr (3, 8.5)"
  "decode_close sample_runtime ''(4, 42.5)'' = Inl IndexError"
  "decode_close sample_runtime ''[5, 1, 2, 3]'' = Inr (5, 2)"
  "decode_close sample_runtime ''[None, 1, 2, 3, 4]'' = Inl TypeError"
  "decode_close sample_runtime ''[6, 1, 2, 3,'' = Inl SyntaxError"
  "decode_close sample_runtime ''time,open,high,low,close'' = Inl ValueError"
  by (simp_all add: decode_close_def sample_runtime_def sample_literals_def raising_def field_def)


lemma sorted_parse_rows: "sorted (map fst (parse_rows rt rows))"
  by (simp add: parse_rows_def)

lemma parse_rows_eq:
  "parse_rows rt rows =
     sort_key fst (map (projr \<circ> decode_close rt) (filter (\<lambda>raw. \<not> isl (decode_close rt raw)) rows))"
  by (simp add: parse_rows_def parse_rows_loop_eq)

lemma parse_history_rows_eq:
  "parse_history_rows rt rows =
     map (projr \<circ> decode_candle rt) (filter (\<lambda>raw. \<not> isl (decode_candle rt raw)) rows)"
  by (simp add: parse_history_rows_def parse_history_loop_eq)

lemma parse_rows_drop:
  "isl (decode_close rt raw) \<Longrightarrow> parse_rows rt (xs @ raw # ys) = parse_rows rt (xs @ ys)"
  by (simp add: parse_rows_eq)

lemma parse_history_rows_drop:
  "isl (decode_candle rt raw) \<Longrightarrow>
     parse_history_rows rt (xs @ raw # ys) = parse_history_rows rt (xs @ ys)"
  by (simp add: parse_history_rows_eq)

lemma field_short:
  "is_sequence vals \<Longrightarrow> py_len vals \<le> i \<Longrightarrow> isl (field rt vals i)"
  by (cases vals) (simp_all add: field_def raising_def)

lemma field_Inr_len:
  "is_sequence vals \<Longrightarrow> field rt vals i = Inr x \<Longrightarrow> i < py_len vals"
  using field_short [of vals i rt] by (cases "i < py_len vals") auto

lemma decode_close_Inr:
  "literal_eval rt raw = Inr vals \<Longrightarrow>
   decode_close rt raw = Inr (ts, c) \<longleftrightarrow> field rt vals 0 = Inr ts \<and> field rt vals 2 = Inr c"
  by (auto simp: decode_close_def raising_def split: sum.splits)

lemma decode_candle_Inr:
  "literal_eval rt raw = Inr vals \<Longrightarrow>
   decode_candle rt raw = Inr (ts, opn, c, h, l) \<longleftrightarrow>
     field rt vals 0 = Inr ts \<and> field rt vals 1 = Inr opn \<and> field rt vals 2 = Inr c \<and>
     field rt vals 3 = Inr h \<and> field rt vals 4 = Inr l"
  by (auto simp: decode_candle_def raising_def split: sum.splits)

lemma decode_close_short:
  assumes "literal_eval rt raw = Inr vals" "is_sequence vals" "py_len vals < 3"
  shows "isl (decode_close rt raw)"
proof (cases "decode_close rt raw")
  case (Inr p)
  obtain ts c where "p = (ts, c)" by (cases p)
  with Inr assms(1) have "field rt vals 2 = Inr c" by (simp add: decode_close_Inr)
  with assms(2) have "2 < py_len vals" by (rule field_Inr_len)
  with assms(3) show ?thesis by simp
qed simp

lemma decode_candle_short:
  assumes "literal_eval rt raw = Inr vals" "is_sequence vals" "py_len vals < 5"
  shows "isl (decode_candle rt raw)"
proof (cases "decode_candle rt raw")
  case (Inr p)
  obtain ts opn c h l where "p = (ts, opn, c, h, l)" by (cases p)
  with Inr assms(1) have "field rt vals 4 = Inr l" by (simp add: decode_candle_Inr)
  with assms(2) have "4 < py_len vals" by (rule field_Inr_len)
  with assms(3) show ?thesis by simp
qed simp

text \<open>
  Claim C1. The claim says that both parsers return their rows in non-decreasing
  timestamp order. Only \<^verbatim>\<open>_parse_rows\<close> sorts; \<^verbatim>\<open>_parse_history_rows\<close> returns
  the decodable rows in the order of the input. As amended: for every list of raw
  rows none of whose timestamps decodes to NaN, the output of the replay parser is
  non-decreasing in timestamp and holds exactly the pairs of the decodable rows; the
  output of the metrics parser is exactly the candles of the decodable rows, in input
  order.

  The restriction is the one of the model: a timestamp here is a real number, so a
  row such as \<^verbatim>\<open>['nan', 0, 99]\<close>, which the code keeps with the timestamp
  \<^verbatim>\<open>float('nan')\<close> and on which \<^verbatim>\<open>list.sort\<close> promises no order, is not an
  input of the theorem. What the replay parser returns on such a row is left open.
\<close>

theorem parse_rows_sorted_history_rows_in_input_order:
  "sorted (map fst (parse_rows rt rows)) \<and>
   mset (parse_rows rt rows) =
     mset (map (projr \<circ> decode_close rt) (filter (\<lambda>raw. \<not> isl (decode_close rt raw)) rows)) \<and>
   parse_history_rows rt rows =
     map (projr \<circ> decode_candle rt) (filter (\<lambda>raw. \<not> isl (decode_candle rt raw)) rows)"
  using sorted_parse_rows [of rt rows] parse_rows_eq [of rt rows]
    parse_history_rows_eq [of rt rows]
  by simp

text \<open>Two decodable rows given newest first come out of the metrics parser newest
  first.\<close>

theorem parse_history_rows_unsorted_counterexample:
  "\<not> sorted (map fst (parse_history_rows sample_runtime
        [''[2, 10, 8, 11, 7, 0.0]'', ''[1, 10, 12, 13, 9, 0.0]'']))"
  by (simp add: parse_history_rows_def sample_decode_candle)

text \<open>
  Claim C6. For every list of raw rows, each row is decoded on its own and a row whose
  decoding raises is skipped, the parse going on with the next row: the metrics parser
  returns the candles of the decodable rows, the replay parser returns their pairs
  sorted by timestamp, and removing an undecodable row from the input changes neither
  output. Neither parser can raise: both return a plain list.
\<close>

theorem undecodable_rows_dropped:
  "parse_history_rows rt rows =
     map (projr \<circ> decode_candle rt) (filter (\<lambda>raw. \<not> isl (decode_candle rt raw)) rows) \<and>
   parse_rows rt rows =
     sort_key fst (map (projr \<circ> decode_close rt)
                     (filter (\<lambda>raw. \<not> isl (decode_close rt raw)) rows)) \<and>
   (isl (decode_candle rt raw) \<longrightarrow>
      parse_history_rows rt (xs @ raw # ys) = parse_history_rows rt (xs @ ys)) \<and>
   (isl (decode_close rt raw) \<longrightarrow>
      parse_rows rt (xs @ raw # ys) = parse_rows rt (xs @ ys))"
  using parse_history_rows_eq parse_rows_eq parse_rows_drop parse_history_rows_drop by blast

text \<open>Three well-formed rows mixed with a CSV header line and a truncated list parse to
  the three candles of the well-formed rows.\<close>

theorem undecodable_rows_dropped_witness:
  "isl (decode_candle sample_runtime ''[6, 1, 2, 3,'') \<and>
   isl (decode_close sample_runtime ''[6, 1, 2, 3,'') \<and>
   parse_history_rows sample_runtime
     [''[3, 8, 8.5, 9, 8, 0.0]'', ''time,open,high,low,close'', ''[1, 10, 12, 13, 9, 0.0]'',
      ''[6, 1, 2, 3,'', ''[2, 10, 8, 11, 7, 0.0]''] =
     [(3, 8, 8.5, 9, 8), (1, 10, 12, 13, 9), (2, 10, 8, 11, 7)] \<and>
   parse_history_rows sample_runtime
     [''[3, 8, 8.5, 9, 8, 0.0]'', ''time,open,high,low,close'', ''[1, 10, 12, 13, 9, 0.0]'',
      ''[2, 10, 8, 11, 7, 0.0]''] =
     [(3, 8, 8.5, 9, 8), (1, 10, 12, 13, 9), (2, 10, 8, 11, 7)] \<and>
   parse_rows sample_runtime
     [''[3, 8, 8.5, 9, 8, 0.0]'', ''time,open,high,low,close'', ''[1, 10, 12, 13, 9, 0.0]'',
      ''[6, 1, 2, 3,'', ''[2, 10, 8, 11, 7, 0.0]''] =
     [(1, 12), (2, 8), (3, 8.5)]"
  using undecodable_rows_dropped
    [of sample_runtime
        "[''[3, 8, 8.5, 9, 8, 0.0]'', ''time,open,high,low,close'', ''[1, 10, 12, 13, 9, 0.0]'',
          ''[6, 1, 2, 3,'', ''[2, 10, 8, 11, 7, 0.0]'']"
        "''[6, 1, 2, 3,''"
        "[''[3, 8, 8.5, 9, 8, 0.0]'', ''time,open,high,low,close'', ''[1, 10, 12, 13, 9, 0.0]'']"
        "[''[2, 10, 8, 11, 7, 0.0]'']"]
  by (simp add: parse_rows_def parse_history_rows_def sample_decode_candle sample_decode_close)

text \<open>
  Claim C10. Both parsers read the fields of the decoded row by position, in the layout
  \<^verbatim>\<open>[timestamp, open, close, high, low, ...]\<close>: for a row that decodes to a sequence,
  the replay parser keeps it exactly when positions 0 and 2 convert to floats, and
  takes the timestamp from position 0 and the close from position 2; the metrics
  parser keeps it exactly when positions 0 to 4 convert, and takes its five fields
  from them in that order. So the replay parser drops a row of fewer than 3 elements
  and the metrics parser a row of fewer than 5.
\<close>

theorem fields_read_by_position:
  assumes "literal_eval rt raw = Inr vals" and "is_sequence vals"
  shows "(py_len vals < 3 \<longrightarrow>
            isl (decode_close rt raw) \<and>
            parse_rows rt (xs @ raw # ys) = parse_rows rt (xs @ ys)) \<and>
         (py_len vals < 5 \<longrightarrow>
            isl (decode_candle rt raw) \<and>
            parse_history_rows rt (xs @ raw # ys) = parse_history_rows rt (xs @ ys)) \<and>
         (decode_close rt raw = Inr (ts, c) \<longleftrightarrow>
            field rt vals 0 = Inr ts \<and> field rt vals 2 = Inr c) \<and>
         (decode_candle rt raw = Inr (ts, opn, c, h, l) \<longleftrightarrow>
            field rt vals 0 = Inr ts \<and> field rt vals 1 = Inr opn \<and> field rt vals 2 = Inr c \<and>
            field rt vals 3 = Inr h \<and> field rt vals 4 = Inr l)"
  using assms decode_close_short decode_candle_short parse_rows_drop parse_history_rows_drop
    decode_close_Inr [OF assms(1)] decode_candle_Inr [OF assms(1)]
  by presburger

text \<open>A row that encodes exactly the pair (timestamp, close) is dropped by both
  parsers.\<close>

theorem fields_read_by_position_witness:
  "literal_eval sample_runtime ''(4, 42.5)'' = Inr (PTuple [PInt 4, PFloat 42.5]) \<and>
   is_sequence (PTuple [PInt 4, PFloat 42.5]) \<and>
   py_len (PTuple [PInt 4, PFloat 42.5]) < 3 \<and>
   isl (decode_close sample_runtime ''(4, 42.5)'') \<and>
   isl (decode_candle sample_runtime ''(4, 42.5)'') \<and>
   parse_rows sample_runtime [''[1, 10, 12, 13, 9, 0.0]'', ''(4, 42.5)''] = [(1, 12)] \<and>
   parse_history_rows sample_runtime [''[1, 10, 12, 13, 9, 0.0]'', ''(4, 42.5)''] =
     [(1, 10, 12, 13, 9)]"
proof -
  have le: "literal_eval sample_runtime ''(4, 42.5)'' = Inr (PTuple [PInt 4, PFloat 42.5])"
    by (simp add: sample_runtime_def sample_literals_def)
  have sq: "is_sequence (PTuple [PInt 4, PFloat 42.5])" by simp
  show ?thesis
    using le fields_read_by_position [OF le sq, of "[''[1, 10, 12, 13, 9, 0.0]'']" "[]"]
    by (simp add: parse_rows_def parse_history_rows_def sample_decode_candle sample_decode_close)
qed

section \<open>Properties of the metrics aggregator\<close>

lemma calc_metrics_loop_eq:
  "calc_metrics_loop rows wins hits thresholds =
     (wins + length (filter (\<lambda>(ts, opn, c, h, l). c > opn) rows),
      hits + length (filter (\<lambda>(ts, opn, c, h, l). max \<bar>h - opn\<bar> \<bar>opn - l\<bar> > 0) rows),
      thresholds @ map (\<lambda>(ts, opn, c, h, l). \<bar>c - opn\<bar>) rows)"
  by (induction rows wins hits thresholds rule: calc_metrics_loop.induct)
    (simp_all add: Let_def less_max_iff_disj)

text \<open>
  Claim C5. For every non-empty list of candles the aggregator returns, without
  raising, the number of candles as \<open>samples\<close>, the number of candles with
  \<open>close > open\<close> over \<open>samples\<close> as \<open>win_rate\<close>, the number of candles whose larger
  of \<open>|high - open|\<close> and \<open>|open - low|\<close> is above zero over \<open>samples\<close> as
  \<open>hit_rate\<close>, and the mean of \<open>|close - open|\<close> as \<open>avg_threshold\<close>.
\<close>

theorem calc_metrics_nonempty:
  assumes "rows \<noteq> []"
  shows "calc_metrics rows =
     Inr \<lparr>samples = length rows,
          win_rate = real (length (filter (\<lambda>(ts, opn, c, h, l). c > opn) rows)) / real (length rows),
          hit_rate = real (length (filter (\<lambda>(ts, opn, c, h, l). max \<bar>h - opn\<bar> \<bar>opn - l\<bar> > 0) rows))
                       / real (length rows),
          avg_threshold = (\<Sum>(ts, opn, c, h, l)\<leftarrow>rows. \<bar>c - opn\<bar>) / real (length rows)\<rparr>"
  using assms by (simp add: calc_metrics_def calc_metrics_loop_eq true_div_def raising_def Let_def)

text \<open>The candles (1, 10, 12, 13, 9) and (2, 10, 8, 11, 7) give 2 samples, a win rate of
  0.5, a hit rate of 1 and an average threshold of 2.\<close>

theorem calc_metrics_nonempty_witness:
  "[(1, 10, 12, 13, 9), (2, 10, 8, 11, 7)] \<noteq> ([] :: candle list) \<and>
   calc_metrics [(1, 10, 12, 13, 9), (2, 10, 8, 11, 7)] =
     Inr \<lparr>samples = 2, win_rate = 0.5, hit_rate = 1, avg_threshold = 2\<rparr>"
  using calc_metrics_nonempty [of "[(1, 10, 12, 13, 9), (2, 10, 8, 11, 7)]"]
  by simp

text \<open>
  Claim C8. On the empty list of candles the aggregator returns, without raising,
  \<open>samples = 0\<close>, \<open>win_rate = 0\<close>, \<open>hit_rate = 0\<close> and \<open>avg_threshold = 0\<close>.
\<close>

theorem calc_metrics_empty:
  "calc_metrics [] = Inr \<lparr>samples = 0, win_rate = 0, hit_rate = 0, avg_threshold = 0\<rparr>"
  by (simp add: calc_metrics_def)

section \<open>Properties of the price replay stream\<close>

lemma sample_symbols:
  "strip (upper ''BTC'') = ''BTC''"
  "strip (upper ''btc'') = ''BTC''"
  "strip (upper '' btc '') = ''BTC''"
  "strip (upper ''ETH'') = ''ETH''"
  by code_simp+

lemma sample_load:
  "load_history sample_runtime s tf dir = sample_history s"
  by (simp add: sample_runtime_def)

lemma sample_parse_BTC:
  "parse_rows sample_runtime (sample_history ''BTC'') = [(1, 12), (2, 8), (3, 8.5)]"
  by (simp add: sample_history_def parse_rows_def sample_decode_close)

lemma sample_parse_ETH:
  "parse_rows sample_runtime (sample_history ''ETH'') = []"
  by (simp add: sample_history_def parse_rows_def sample_decode_close)

lemma sample_closes:
  "parsed_closes sample_runtime (replay_init sample_runtime ''/data'' ''1hour'' [''BTC'']) ''BTC''
     = [12, 8, 8.5]"
  "parsed_closes sample_runtime (replay_init sample_runtime ''/data'' ''1hour'' [''BTC'']) ''ETH''
     = []"
  by (simp_all add: parsed_closes_def sample_load sample_parse_BTC sample_parse_ETH)

lemma feed_nonempty: "feed rt self s \<noteq> []"
  by (simp add: feed_def)

lemma feed_cong:
  "timeframe self' = timeframe self \<Longrightarrow> csv_root self' = csv_root self \<Longrightarrow>
   feed rt self' = feed rt self"
  by (simp add: feed_def parsed_closes_def fun_eq_iff)

lemma iter_for_next_fresh:
  "iter_for_next rt self (NotStarted s) =
     (hd (feed rt self s), Suspended s (tl (feed rt self s)),
      self\<lparr>last_price := (last_price self)(s \<mapsto> hd (feed rt self s))\<rparr>)"
proof -
  obtain p ps where f: "feed rt self s = p # ps"
    using feed_nonempty [of rt self s] by (cases "feed rt self s") auto
  then show ?thesis
    by (auto simp: feed_def parsed_closes_def Let_def split: if_splits)
qed

lemma served_init: "served rt (replay_init rt dir tf cs) (\<lambda>s. 0)"
  by (simp add: served_def replay_init_def)

lemma next_price_first:
  assumes "iters self s = None" and "strip (upper x) = s"
  shows "next_price rt self x =
     (hd (feed rt self s),
      self\<lparr>iters := (iters self)(s \<mapsto> Suspended s (tl (feed rt self s))),
           last_price := (last_price self)(s \<mapsto> hd (feed rt self s))\<rparr>)"
proof -
  let ?self1 = "self\<lparr>iters := (iters self)(s \<mapsto> NotStarted s)\<rparr>"
  have fc: "feed rt ?self1 = feed rt self" by (rule feed_cong) simp_all
  show ?thesis
    using assms
    by (simp add: next_price_def Let_def domIff iter_for_next_fresh fc del: iter_for_next.simps)
qed

lemma next_price_more:
  assumes "iters self s = Some (Suspended s (p # rest))" and "strip (upper x) = s"
  shows "next_price rt self x =
     (p, self\<lparr>iters := (iters self)(s \<mapsto> Suspended s rest),
              last_price := (last_price self)(s \<mapsto> p)\<rparr>)"
  using assms by (simp add: next_price_def Let_def domIff)

lemma next_price_done:
  assumes "iters self s = Some (Suspended s [])" and "strip (upper x) = s"
    and "last_price self s = Some p"
  shows "next_price rt self x = (p, self)"
  using assms by (simp add: next_price_def Let_def domIff fun_upd_idem)

lemma price_at_0: "ps \<noteq> [] \<Longrightarrow> price_at ps 0 = hd ps"
  by (cases ps) (simp_all add: price_at_def)

lemma price_at_past: "ps \<noteq> [] \<Longrightarrow> length ps \<le> Suc k \<Longrightarrow> price_at ps (Suc k) = price_at ps k"
  by (auto simp: price_at_def last_conv_nth not_less le_Suc_eq)

lemma next_price_served:
  assumes inv: "served rt self n" and s: "strip (upper x) = s"
  shows "fst (next_price rt self x) = price_at (feed rt self s) (n s) \<and>
         served rt (snd (next_price rt self x)) (n(s := Suc (n s))) \<and>
         timeframe (snd (next_price rt self x)) = timeframe self \<and>
         csv_root (snd (next_price rt self x)) = csv_root self"
proof (cases "n s = 0")
  case True
  with inv have none: "iters self s = None" by (simp add: served_def)
  note np = next_price_first [OF none s, of rt]
  let ?self' = "snd (next_price rt self x)"
  have fc: "feed rt ?self' = feed rt self" by (rule feed_cong) (simp_all add: np)
  have "served rt ?self' (n(s := Suc (n s)))"
    unfolding served_def fc using inv True feed_nonempty [of rt self s]
    by (auto simp: np served_def price_at_0 drop_Suc)
  then show ?thesis using True feed_nonempty [of rt self s] by (simp add: np price_at_0)
next
  case False
  with inv have it: "iters self s = Some (Suspended s (drop (n s) (feed rt self s)))"
    and lp: "last_price self s = Some (price_at (feed rt self s) (n s - 1))"
    by (simp_all add: served_def)
  show ?thesis
  proof (cases "n s < length (feed rt self s)")
    case True
    then have dr: "drop (n s) (feed rt self s) =
        feed rt self s ! n s # drop (Suc (n s)) (feed rt self s)"
      by (simp add: Cons_nth_drop_Suc)
    note np = next_price_more [OF it [unfolded dr] s, of rt]
    let ?self' = "snd (next_price rt self x)"
    have fc: "feed rt ?self' = feed rt self" by (rule feed_cong) (simp_all add: np)
    have "served rt ?self' (n(s := Suc (n s)))"
      unfolding served_def fc using inv True
      by (auto simp: np served_def price_at_def)
    then show ?thesis using True by (simp add: np price_at_def)
  next
    case ge: False
    then have dr: "drop (n s) (feed rt self s) = []" by simp
    note np = next_price_done [OF it [unfolded dr] s lp, of rt]
    from False ge have pa: "price_at (feed rt self s) (n s) = price_at (feed rt self s) (n s - 1)"
      using price_at_past [of "feed rt self s" "n s - 1"] feed_nonempty [of rt self s] by simp
    have "served rt self (n(s := Suc (n s)))"
      unfolding served_def using inv ge pa it dr by (auto simp: served_def)
    then show ?thesis by (simp add: np pa)
  qed
qed

lemma next_prices_served:
  "served rt self n \<Longrightarrow>
     fst (next_prices rt self syms) = expected (feed rt self) n syms \<and>
     served rt (snd (next_prices rt self syms))
       (\<lambda>s. n s + length (filter (\<lambda>x. strip (upper x) = s) syms)) \<and>
     timeframe (snd (next_prices rt self syms)) = timeframe self \<and>
     csv_root (snd (next_prices rt self syms)) = csv_root self"
proof (induction syms arbitrary: self n)
  case Nil
  then show ?case by simp
next
  case (Cons x syms)
  let ?s = "strip (upper x)"
  let ?self1 = "snd (next_price rt self x)"
  let ?n1 = "n(?s := Suc (n ?s))"
  from next_price_served [OF Cons.prems refl, of x]
  have p: "fst (next_price rt self x) = price_at (feed rt self ?s) (n ?s)"
    and inv1: "served rt ?self1 ?n1"
    and tf: "timeframe ?self1 = timeframe self" and cr: "csv_root ?self1 = csv_root self"
    by simp_all
  have fc: "feed rt ?self1 = feed rt self" using tf cr by (rule feed_cong)
  note ih = Cons.IH [OF inv1]
  have cnt: "(\<lambda>s. ?n1 s + length (filter (\<lambda>x. strip (upper x) = s) syms)) =
             (\<lambda>s. n s + length (filter (\<lambda>x. strip (upper x) = s) (x # syms)))"
    by (auto simp: fun_eq_iff)
  show ?case
    using ih p tf cr unfolding fc cnt [symmetric]
    by (simp add: split_beta Let_def fun_upd_def)
qed

lemma expected_nth:
  "i < length syms \<Longrightarrow>
   expected f n syms ! i =
     price_at (f (strip (upper (syms ! i))))
       (n (strip (upper (syms ! i)))
        + length (filter (\<lambda>x. strip (upper x) = strip (upper (syms ! i))) (take i syms)))"
proof (induction syms arbitrary: n i)
  case Nil
  then show ?case by simp
next
  case (Cons x syms)
  show ?case
  proof (cases i)
    case 0
    then show ?thesis by simp
  next
    case (Suc j)
    with Cons.prems have "j < length syms" by simp
    from Cons.IH [OF this, of "n(strip (upper x) := Suc (n (strip (upper x))))"] Suc
    show ?thesis by (simp add: fun_upd_def)
  qed
qed


lemma expected_same:
  "\<forall>x\<in>set syms. strip (upper x) = s \<Longrightarrow>
   expected f n syms = map (\<lambda>k. price_at (f s) (n s + k)) [0..<length syms]"
proof (induction syms arbitrary: n)
  case Nil
  then show ?case by simp
next
  case (Cons x syms)
  then have x: "strip (upper x) = s" and rest: "\<forall>x\<in>set syms. strip (upper x) = s"
    by simp_all
  have "map (\<lambda>k. price_at (f s) (n s + k)) [0..<length (x # syms)] =
        price_at (f s) (n s) # map (\<lambda>k. price_at (f s) (Suc (n s) + k)) [0..<length syms]"
  proof -
    have "[0..<length (x # syms)] = 0 # map Suc [0..<length syms]"
      by (simp add: upt_conv_Cons map_Suc_upt del: upt_Suc)
    then show ?thesis by (simp add: comp_def del: upt_Suc)
  qed
  with Cons.IH [OF rest, of "n(s := Suc (n s))"] x show ?case
    by (simp add: fun_upd_def del: upt_Suc)
qed

lemma next_prices_init:
  "fst (next_prices rt (replay_init rt dir tf cs) syms) =
     expected (feed rt (replay_init rt dir tf cs)) (\<lambda>s. 0) syms"
  using next_prices_served [OF served_init] by blast

lemma next_prices_init_nth:
  assumes "i < length syms"
  shows "fst (next_prices rt (replay_init rt dir tf cs) syms) ! i =
     price_at (feed rt (replay_init rt dir tf cs) (strip (upper (syms ! i))))
       (length (filter (\<lambda>x. strip (upper x) = strip (upper (syms ! i))) (take i syms)))"
  by (simp add: next_prices_init expected_nth [OF assms])

lemma served_final:
  "served rt (snd (next_prices rt (replay_init rt dir tf cs) syms))
     (\<lambda>s. length (filter (\<lambda>x. strip (upper x) = s) syms))"
  using next_prices_served [OF served_init, of rt dir tf cs syms] by simp

lemma feed_final:
  "feed rt (snd (next_prices rt (replay_init rt dir tf cs) syms)) =
   feed rt (replay_init rt dir tf cs)"
  using next_prices_served [OF served_init, of rt dir tf cs syms] by (intro feed_cong) simp_all

lemma called_count:
  "i < length syms \<Longrightarrow>
   0 < length (filter (\<lambda>x. strip (upper x) = strip (upper (syms ! i))) syms)"
  by (simp add: filter_empty_conv) (use nth_mem in blast)

text \<open>
  Claim C2. On a fresh stream, take any list of calls and the call at position \<open>i\<close>;
  let the history of its symbol parse to the non-empty closes \<open>closes\<close>, and let \<open>k\<close>
  be the number of earlier calls for the same symbol. Then the call returns
  \<open>closes ! k\<close> while \<open>k\<close> is within the list and the last close from then on. For
  the closes \<open>[p1, p2, p3]\<close> the calls return \<open>p1\<close>, \<open>p2\<close>, \<open>p3\<close> and then \<open>p3\<close>
  for ever.
\<close>

theorem replay_exhaustion:
  assumes "i < length syms"
    and "parsed_closes rt (replay_init rt dir tf cs) (strip (upper (syms ! i))) = closes"
    and "closes \<noteq> []"
    and "k = length (filter (\<lambda>x. strip (upper x) = strip (upper (syms ! i))) (take i syms))"
  shows "fst (next_prices rt (replay_init rt dir tf cs) syms) ! i =
           (if k < length closes then closes ! k else last closes) \<and>
         (closes = [p1, p2, p3] \<longrightarrow>
            fst (next_prices rt (replay_init rt dir tf cs) syms) ! i =
              (if k = 0 then p1 else if k = 1 then p2 else p3))"
proof -
  have f: "feed rt (replay_init rt dir tf cs) (strip (upper (syms ! i))) = closes"
    using assms(2,3) by (simp add: feed_def)
  have g: "fst (next_prices rt (replay_init rt dir tf cs) syms) ! i =
           (if k < length closes then closes ! k else last closes)"
    by (simp add: next_prices_init_nth [OF assms(1)] f assms(4) price_at_def)
  have "(if k < length [p1, p2, p3] then [p1, p2, p3] ! k else last [p1, p2, p3]) =
        (if k = 0 then p1 else if k = 1 then p2 else p3)"
    by (cases k rule: nat.exhaust; simp add: nth_Cons split: nat.splits)
  with g show ?thesis by auto
qed

text \<open>Five calls for a symbol whose history parses to the closes 12, 8, 8.5.\<close>

theorem replay_exhaustion_witness:
  "4 < length [''BTC'', ''BTC'', ''BTC'', ''BTC'', ''BTC''] \<and>
   parsed_closes sample_runtime (replay_init sample_runtime ''/data'' ''1hour'' [''BTC''])
     (strip (upper ([''BTC'', ''BTC'', ''BTC'', ''BTC'', ''BTC''] ! 4))) = [12, 8, 8.5] \<and>
   length (filter (\<lambda>x. strip (upper x) = strip (upper ([''BTC'', ''BTC'', ''BTC'', ''BTC'', ''BTC''] ! 4)))
     (take 4 [''BTC'', ''BTC'', ''BTC'', ''BTC'', ''BTC''])) = 4 \<and>
   fst (next_prices sample_runtime (replay_init sample_runtime ''/data'' ''1hour'' [''BTC''])
          [''BTC'', ''BTC'', ''BTC'', ''BTC'', ''BTC'']) ! 4 = 8.5 \<and>
   fst (next_prices sample_runtime (replay_init sample_runtime ''/data'' ''1hour'' [''BTC''])
          [''BTC'', ''BTC'', ''BTC'', ''BTC'', ''BTC'']) = [12, 8, 8.5, 8.5, 8.5]"
proof -
  let ?syms = "[''BTC'', ''BTC'', ''BTC'', ''BTC'', ''BTC'']"
  have i: "4 < length ?syms" by simp
  have c: "parsed_closes sample_runtime (replay_init sample_runtime ''/data'' ''1hour'' [''BTC''])
     (strip (upper (?syms ! 4))) = [12, 8, 8.5]"
    by (simp add: sample_symbols sample_closes)
  have n: "[12, 8, 8.5] \<noteq> ([] :: real list)" by simp
  have k: "4 = length (filter (\<lambda>x. strip (upper x) = strip (upper (?syms ! 4))) (take 4 ?syms))"
    by (simp add: sample_symbols)
  have run: "fst (next_prices sample_runtime
                    (replay_init sample_runtime ''/data'' ''1hour'' [''BTC'']) ?syms)
               = [12, 8, 8.5, 8.5, 8.5]"
    by (simp add: next_price_def sample_symbols replay_init_def Let_def sample_load
          sample_parse_BTC)
  show ?thesis
    using replay_exhaustion [OF i c n k, of 12 8 "8.5"] i c k [symmetric] run by simp
qed

text \<open>
  Claim C7. On a fresh stream, every call for a symbol whose history parses to no price
  returns 0, whatever other calls come before or between, and after the calls the
  last price of the symbol is 0. The call cannot raise: \<open>next_price\<close> returns a price
  for every instance and symbol.
\<close>

theorem replay_empty_history:
  assumes "i < length syms"
    and "parsed_closes rt (replay_init rt dir tf cs) (strip (upper (syms ! i))) = []"
  shows "fst (next_prices rt (replay_init rt dir tf cs) syms) ! i = 0 \<and>
         last_price (snd (next_prices rt (replay_init rt dir tf cs) syms))
           (strip (upper (syms ! i))) = Some 0"
proof -
  let ?s = "strip (upper (syms ! i))"
  have f: "feed rt (replay_init rt dir tf cs) ?s = [0]"
    using assms(2) by (simp add: feed_def)
  have a: "fst (next_prices rt (replay_init rt dir tf cs) syms) ! i = 0"
    by (simp add: next_prices_init_nth [OF assms(1)] f price_at_def)
  have b: "last_price (snd (next_prices rt (replay_init rt dir tf cs) syms)) ?s = Some 0"
    using served_final [of rt dir tf cs syms] called_count [OF assms(1)]
    unfolding served_def feed_final
    by (auto simp: f price_at_def)
  from a b show ?thesis by simp
qed

text \<open>Three calls for a symbol whose history holds a header line and a pair only.\<close>

theorem replay_empty_history_witness:
  "2 < length [''ETH'', ''ETH'', ''ETH''] \<and>
   parsed_closes sample_runtime (replay_init sample_runtime ''/data'' ''1hour'' [''BTC''])
     (strip (upper ([''ETH'', ''ETH'', ''ETH''] ! 2))) = [] \<and>
   fst (next_prices sample_runtime (replay_init sample_runtime ''/data'' ''1hour'' [''BTC''])
          [''ETH'', ''ETH'', ''ETH'']) = [0, 0, 0] \<and>
   last_price (snd (next_prices sample_runtime
                      (replay_init sample_runtime ''/data'' ''1hour'' [''BTC''])
                      [''ETH'', ''ETH'', ''ETH''])) ''ETH'' = Some 0"
proof -
  let ?syms = "[''ETH'', ''ETH'', ''ETH'']"
  have i: "2 < length ?syms" by simp
  have c: "parsed_closes sample_runtime (replay_init sample_runtime ''/data'' ''1hour'' [''BTC''])
     (strip (upper (?syms ! 2))) = []"
    by (simp add: sample_symbols sample_closes)
  have run: "fst (next_prices sample_runtime
                    (replay_init sample_runtime ''/data'' ''1hour'' [''BTC'']) ?syms)
               = [0, 0, 0]"
    by (simp add: next_price_def sample_symbols replay_init_def Let_def sample_load
          sample_parse_ETH)
  show ?thesis
    using replay_empty_history [OF i c] i c run by (simp add: sample_symbols)
qed

text \<open>
  Claim C9. Two spellings of a symbol that are equal after upper-casing and trimming are
  the same argument to \<open>next_price\<close>: on every instance the call returns the same price
  and leaves the same instance. On a fresh stream, calls that mix the two spellings in
  any order read one sequence, call number \<open>k\<close> returning the price at \<open>k\<close> of the one
  feed, and the instance holds a generator under the normalised symbol only.
\<close>

theorem spellings_share_state:
  assumes "strip (upper a) = strip (upper b)"
  shows "next_price rt self a = next_price rt self b \<and>
         (set syms \<subseteq> {a, b} \<longrightarrow>
            fst (next_prices rt (replay_init rt dir tf cs) syms) =
              map (price_at (feed rt (replay_init rt dir tf cs) (strip (upper a))))
                [0..<length syms] \<and>
            dom (iters (snd (next_prices rt (replay_init rt dir tf cs) syms)))
              \<subseteq> {strip (upper a)})"
proof -
  have one: "next_price rt self a = next_price rt self b"
    using assms by (simp add: next_price_def)
  have two: "fst (next_prices rt (replay_init rt dir tf cs) syms) =
              map (price_at (feed rt (replay_init rt dir tf cs) (strip (upper a))))
                [0..<length syms]"
    and three: "dom (iters (snd (next_prices rt (replay_init rt dir tf cs) syms)))
              \<subseteq> {strip (upper a)}"
    if sub: "set syms \<subseteq> {a, b}"
  proof -
    from sub assms have all: "\<forall>x\<in>set syms. strip (upper x) = strip (upper a)" by auto
    show "fst (next_prices rt (replay_init rt dir tf cs) syms) =
              map (price_at (feed rt (replay_init rt dir tf cs) (strip (upper a))))
                [0..<length syms]"
      by (simp add: next_prices_init expected_same [OF all])
    have "iters (snd (next_prices rt (replay_init rt dir tf cs) syms)) s = None"
      if "s \<noteq> strip (upper a)" for s
    proof -
      from that all have "filter (\<lambda>x. strip (upper x) = s) syms = []"
        by (auto simp: filter_empty_conv)
      with served_final [of rt dir tf cs syms] show ?thesis by (simp add: served_def)
    qed
    then show "dom (iters (snd (next_prices rt (replay_init rt dir tf cs) syms)))
              \<subseteq> {strip (upper a)}"
      by (metis domIff insertCI subsetI)
  qed
  from one two three show ?thesis by blast
qed

text \<open>Calls alternating between \<^verbatim>\<open>"BTC"\<close> and \<^verbatim>\<open>" btc "\<close>.\<close>

theorem spellings_share_state_witness:
  "strip (upper '' btc '') = strip (upper ''BTC'') \<and>
   set [''BTC'', '' btc '', ''BTC'', '' btc '', ''BTC''] \<subseteq> {'' btc '', ''BTC''} \<and>
   next_price sample_runtime (replay_init sample_runtime ''/data'' ''1hour'' [''BTC'']) '' btc ''
     = next_price sample_runtime (replay_init sample_runtime ''/data'' ''1hour'' [''BTC'']) ''BTC'' \<and>
   fst (next_prices sample_runtime (replay_init sample_runtime ''/data'' ''1hour'' [''BTC''])
          [''BTC'', '' btc '', ''BTC'', '' btc '', ''BTC'']) = [12, 8, 8.5, 8.5, 8.5] \<and>
   dom (iters (snd (next_prices sample_runtime
                      (replay_init sample_runtime ''/data'' ''1hour'' [''BTC''])
                      [''BTC'', '' btc '', ''BTC'', '' btc '', ''BTC''])))
     \<subseteq> {''BTC''}"
proof -
  let ?syms = "[''BTC'', '' btc '', ''BTC'', '' btc '', ''BTC'']"
  have e: "strip (upper '' btc '') = strip (upper ''BTC'')" by (simp add: sample_symbols)
  have s: "set ?syms \<subseteq> {'' btc '', ''BTC''}" by simp
  have run: "fst (next_prices sample_runtime
                    (replay_init sample_runtime ''/data'' ''1hour'' [''BTC'']) ?syms)
               = [12, 8, 8.5, 8.5, 8.5]"
    by (simp add: next_price_def sample_symbols replay_init_def Let_def sample_load
          sample_parse_BTC)
  show ?thesis
    using spellings_share_state [OF e, of sample_runtime
            "replay_init sample_runtime ''/data'' ''1hour'' [''BTC'']" ?syms
            "''/data''" "''1hour''" "[''BTC'']"] e s run
    by (simp add: sample_symbols)
qed

section \<open>Properties of discovery and of the orchestrator\<close>

lemma dd_append_new:
  "k \<notin> fst ` set ds \<Longrightarrow> dd_append ds k v = ds @ [(k, [v])]"
  by (induction ds k v rule: dd_append.induct) auto

lemma dd_append_last:
  "k \<notin> fst ` set ds \<Longrightarrow> dd_append (ds @ [(k, vs)]) k v = ds @ [(k, vs @ [v])]"
  by (induction ds k v rule: dd_append.induct) auto

lemma discover_coins_last:
  "tf \<notin> fst ` set ds \<Longrightarrow>
   discover_coins rt tf_path tf allowed (cs :: string list) (ds @ [(tf, vs)]) =
     ds @ [(tf, vs @ kept_coins rt tf_path allowed cs)]"
  by (induction cs arbitrary: vs) (simp_all add: kept_coins_def dd_append_last)

lemma discover_coins_eq:
  assumes "tf \<notin> fst ` set ds"
  shows "discover_coins rt tf_path tf allowed cs ds =
     (if kept_coins rt tf_path allowed cs = [] then ds
      else ds @ [(tf, kept_coins rt tf_path allowed cs)])"
  using assms
proof (induction cs)
  case Nil
  then show ?case by (simp add: kept_coins_def)
next
  case (Cons coin cs)
  show ?case
  proof (cases "\<not> filtered_out allowed coin \<and> isdir rt (path_join tf_path coin)")
    case True
    then show ?thesis
      using Cons.prems discover_coins_last [OF Cons.prems, of rt tf_path allowed cs "[coin]"]
      by (simp add: kept_coins_def dd_append_new)
  next
    case False
    then show ?thesis using Cons by (auto simp: kept_coins_def)
  qed
qed

lemma found_Cons:
  "found rt rootdir allowed (tf # tfs) =
     (if isdir rt (path_join rootdir tf) \<and>
         kept_coins rt (path_join rootdir tf) allowed
           (sort (projr (listdir rt (path_join rootdir tf)))) \<noteq> []
      then [(tf, kept_coins rt (path_join rootdir tf) allowed
                   (sort (projr (listdir rt (path_join rootdir tf)))))]
      else []) @ found rt rootdir allowed tfs"
  by (simp add: found_def)

lemma discover_timeframes_eq:
  assumes "distinct tfs" and "set tfs \<inter> fst ` set ds = {}"
    and "\<forall>tf\<in>set tfs. isdir rt (path_join rootdir tf) \<longrightarrow> \<not> isl (listdir rt (path_join rootdir tf))"
  shows "discover_timeframes rt rootdir allowed tfs ds = Inr (ds @ found rt rootdir allowed tfs)"
  using assms
proof (induction tfs arbitrary: ds)
  case Nil
  then show ?case by (simp add: found_def)
next
  case (Cons tf tfs)
  let ?p = "path_join rootdir tf"
  from Cons.prems have fresh: "tf \<notin> fst ` set ds" and d: "distinct tfs" and nt: "tf \<notin> set tfs"
    and disj: "set tfs \<inter> fst ` set ds = {}"
    and rest: "\<forall>tf\<in>set tfs. isdir rt (path_join rootdir tf) \<longrightarrow>
                 \<not> isl (listdir rt (path_join rootdir tf))"
    by auto
  show ?case
  proof (cases "isdir rt ?p")
    case False
    then show ?thesis using Cons.IH [OF d disj rest] by (simp add: found_Cons)
  next
    case True
    with Cons.prems obtain cs where ls: "listdir rt ?p = Inr cs"
      by (cases "listdir rt ?p") auto
    let ?k = "kept_coins rt ?p allowed (sort cs)"
    let ?ds' = "discover_coins rt ?p tf allowed (sort cs) ds"
    have ds': "?ds' = (if ?k = [] then ds else ds @ [(tf, ?k)])"
      by (rule discover_coins_eq [OF fresh])
    have disj': "set tfs \<inter> fst ` set ?ds' = {}"
      using disj nt by (auto simp: ds')
    have "discover_timeframes rt rootdir allowed (tf # tfs) ds =
          discover_timeframes rt rootdir allowed tfs ?ds'"
      using True ls by (simp add: raising_def)
    also have "\<dots> = Inr (?ds' @ found rt rootdir allowed tfs)"
      by (rule Cons.IH [OF d disj' rest])
    also have "?ds' @ found rt rootdir allowed tfs = ds @ found rt rootdir allowed (tf # tfs)"
      using True ls by (simp add: ds' found_Cons)
    finally show ?thesis .
  qed
qed

lemma discover_datasets_eq:
  assumes "listdir rt rootdir = Inr tfs" and "distinct tfs"
    and "\<forall>tf\<in>set tfs. isdir rt (path_join rootdir tf) \<longrightarrow> \<not> isl (listdir rt (path_join rootdir tf))"
  shows "discover_datasets rt rootdir allowed = Inr (found rt rootdir allowed (sort tfs))"
  using assms discover_timeframes_eq [of "sort tfs" "[]" rt rootdir allowed]
  by (simp add: discover_datasets_def raising_def)

lemma sorted_found_keys: "sorted tfs \<Longrightarrow> sorted (map fst (found rt rootdir allowed tfs))"
proof -
  have "map fst (found rt rootdir allowed tfs) =
        filter (\<lambda>tf. isdir rt (path_join rootdir tf) \<and>
                     kept_coins rt (path_join rootdir tf) allowed
                       (sort (projr (listdir rt (path_join rootdir tf)))) \<noteq> []) tfs"
    by (induction tfs) (simp_all add: found_Cons, simp add: found_def)
  then show "sorted tfs \<Longrightarrow> sorted (map fst (found rt rootdir allowed tfs))"
    by (simp add: sorted_wrt_filter)
qed

lemma found_entry:
  "(tf, cs) \<in> set (found rt rootdir allowed tfs) \<longleftrightarrow>
     tf \<in> set tfs \<and> isdir rt (path_join rootdir tf) \<and> cs \<noteq> [] \<and>
     cs = kept_coins rt (path_join rootdir tf) allowed
            (sort (projr (listdir rt (path_join rootdir tf))))"
  by (auto simp: found_def)

lemma sorted_kept_coins: "sorted cs \<Longrightarrow> sorted (kept_coins rt p allowed cs)"
  by (simp add: kept_coins_def sorted_wrt_filter)

lemma set_kept_coins:
  "coin \<in> set (kept_coins rt p allowed cs) \<longleftrightarrow>
     coin \<in> set cs \<and> isdir rt (path_join p coin) \<and>
     (\<forall>A. allowed = Some A \<and> A \<noteq> {} \<longrightarrow> coin \<in> A)"
  by (auto simp: kept_coins_def filtered_out_def split: option.splits)


lemma distinct_found_keys: "distinct tfs \<Longrightarrow> distinct (map fst (found rt rootdir allowed tfs))"
proof -
  have "map fst (found rt rootdir allowed tfs) =
        filter (\<lambda>tf. isdir rt (path_join rootdir tf) \<and>
                     kept_coins rt (path_join rootdir tf) allowed
                       (sort (projr (listdir rt (path_join rootdir tf)))) \<noteq> []) tfs"
    by (induction tfs) (simp_all add: found_Cons, simp add: found_def)
  then show "distinct tfs \<Longrightarrow> distinct (map fst (found rt rootdir allowed tfs))"
    by simp
qed

lemma sample_abspath: "abspath sample_runtime p = p"
  by (simp add: sample_runtime_def)

lemma sample_listing:
  "listdir sample_runtime ''/data'' = Inr [''4hour'', ''notes.txt'', ''1hour'']"
  "listdir sample_runtime ''/empty'' = Inr []"
  "listdir sample_runtime ''/missing'' = Inl FileNotFoundError"
  by code_simp+

lemma sample_discover:
  "discover_datasets sample_runtime ''/data'' (Some {''BTC'', ''SOL''}) =
     Inr [(''1hour'', [''BTC'', ''SOL''])]"
  "discover_datasets sample_runtime ''/data'' (Some {}) =
     Inr [(''1hour'', [''BTC'', ''ETH'', ''SOL'']), (''4hour'', [''ETH''])]"
  "discover_datasets sample_runtime ''/empty'' None = Inr []"
  "discover_datasets sample_runtime ''/missing'' None = Inl FileNotFoundError"
  by code_simp+

text \<open>
  Claim C3. The claim says that a provided \<open>allowed_coins\<close> keeps exactly its members,
  so that a provided empty set keeps no coin. The test in the code is
  \<^verbatim>\<open>allowed_coins and coin not in allowed_coins\<close>, which filters nothing when the set
  is empty. As amended: when the root and its timeframe directories can be listed, a
  coin appears under a timeframe if and only if the timeframe and the coin are
  directories on disk and, when \<open>allowed_coins\<close> is provided and not empty, the coin is
  a member of it (an empty set filters nothing); no timeframe is mapped to an empty
  list; the timeframe keys and each coin list are in lexicographic order.
\<close>

theorem discover_datasets_filtered:
  assumes "listdir rt rootdir = Inr tfs" and "distinct tfs"
    and "\<forall>tf\<in>set tfs. isdir rt (path_join rootdir tf) \<longrightarrow>
           \<not> isl (listdir rt (path_join rootdir tf))"
  shows "\<exists>ds. discover_datasets rt rootdir allowed_coins = Inr ds \<and>
           sorted (map fst ds) \<and> distinct (map fst ds) \<and>
           (\<forall>(tf, cs)\<in>set ds. cs \<noteq> [] \<and> sorted cs) \<and>
           (\<forall>tf coin. (\<exists>cs. (tf, cs) \<in> set ds \<and> coin \<in> set cs) \<longleftrightarrow>
               tf \<in> set tfs \<and> isdir rt (path_join rootdir tf) \<and>
               coin \<in> set (projr (listdir rt (path_join rootdir tf))) \<and>
               isdir rt (path_join (path_join rootdir tf) coin) \<and>
               (case allowed_coins of None \<Rightarrow> True | Some A \<Rightarrow> A = {} \<or> coin \<in> A))"
proof -
  let ?ds = "found rt rootdir allowed_coins (sort tfs)"
  have eq: "discover_datasets rt rootdir allowed_coins = Inr ?ds"
    by (rule discover_datasets_eq [OF assms])
  have keys: "sorted (map fst ?ds)" "distinct (map fst ?ds)"
    using assms(2) by (simp_all add: sorted_found_keys distinct_found_keys)
  have lists: "\<forall>(tf, cs)\<in>set ?ds. cs \<noteq> [] \<and> sorted cs"
    by (auto simp: found_entry sorted_kept_coins)
  have allowed: "(\<forall>A. allowed_coins = Some A \<and> A \<noteq> {} \<longrightarrow> coin \<in> A) \<longleftrightarrow>
                 (case allowed_coins of None \<Rightarrow> True | Some A \<Rightarrow> A = {} \<or> coin \<in> A)" for coin
    by (auto split: option.splits)
  have mem: "(\<exists>cs. (tf, cs) \<in> set ?ds \<and> coin \<in> set cs) \<longleftrightarrow>
               tf \<in> set tfs \<and> isdir rt (path_join rootdir tf) \<and>
               coin \<in> set (projr (listdir rt (path_join rootdir tf))) \<and>
               isdir rt (path_join (path_join rootdir tf) coin) \<and>
               (case allowed_coins of None \<Rightarrow> True | Some A \<Rightarrow> A = {} \<or> coin \<in> A)" for tf coin
  proof -
    have "(\<exists>cs. (tf, cs) \<in> set ?ds \<and> coin \<in> set cs) \<longleftrightarrow>
            tf \<in> set tfs \<and> isdir rt (path_join rootdir tf) \<and>
            coin \<in> set (kept_coins rt (path_join rootdir tf) allowed_coins
                           (sort (projr (listdir rt (path_join rootdir tf)))))"
      by (auto simp: found_entry)
    then show ?thesis
      unfolding allowed [symmetric] by (simp add: set_kept_coins)
  qed
  from eq keys lists mem show ?thesis by blast
qed

text \<open>With BTC, ETH and SOL on disk under one timeframe, ETH alone under another, and
  BTC and SOL allowed, discovery returns BTC and SOL under the first timeframe only.\<close>

theorem discover_datasets_filtered_witness:
  "listdir sample_runtime ''/data'' = Inr [''4hour'', ''notes.txt'', ''1hour''] \<and>
   distinct [''4hour'', ''notes.txt'', ''1hour''] \<and>
   discover_datasets sample_runtime ''/data'' (Some {''BTC'', ''SOL''}) =
     Inr [(''1hour'', [''BTC'', ''SOL''])] \<and>
   sorted [''BTC'', ''SOL''] \<and>
   isdir sample_runtime (path_join (path_join ''/data'' ''1hour'') ''ETH'') \<and>
   isdir sample_runtime (path_join (path_join ''/data'' ''4hour'') ''ETH'')"
proof -
  have l: "listdir sample_runtime ''/data'' = Inr [''4hour'', ''notes.txt'', ''1hour'']"
    by (rule sample_listing)
  have d: "distinct [''4hour'', ''notes.txt'', ''1hour'']" by simp
  have sub: "\<forall>tf\<in>set [''4hour'', ''notes.txt'', ''1hour''].
               isdir sample_runtime (path_join ''/data'' tf) \<longrightarrow>
               \<not> isl (listdir sample_runtime (path_join ''/data'' tf))"
    by code_simp
  have s: "sorted [''BTC'', ''SOL'']" by code_simp
  have e: "isdir sample_runtime (path_join (path_join ''/data'' ''1hour'') ''ETH'')"
          "isdir sample_runtime (path_join (path_join ''/data'' ''4hour'') ''ETH'')"
    by code_simp+
  show ?thesis
    using discover_datasets_filtered [OF l d sub, of "Some {''BTC'', ''SOL''}"] l d s e
    by (simp add: sample_discover)
qed

text \<open>With the empty set provided, every coin directory survives.\<close>

theorem empty_allowed_coins_counterexample:
  "discover_datasets sample_runtime ''/data'' (Some {}) =
     Inr [(''1hour'', [''BTC'', ''ETH'', ''SOL'']), (''4hour'', [''ETH''])] \<and>
   ''BTC'' \<notin> ({} :: string set)"
  by (simp add: sample_discover)

lemma found_empty:
  assumes "\<forall>tf\<in>set tfs. isdir rt (path_join rootdir tf) \<longrightarrow>
             (\<forall>coin\<in>set (projr (listdir rt (path_join rootdir tf))).
                filtered_out allowed coin \<or> \<not> isdir rt (path_join (path_join rootdir tf) coin))"
  shows "found rt rootdir allowed tfs = []"
  using assms by (auto simp: found_def kept_coins_def filter_empty_conv)

lemma main_cases:
  "main rt a fs =
     (case discover_datasets rt (abspath rt (data_dir a))
             (case coin_option a of None \<Rightarrow> None
              | Some cs \<Rightarrow> if cs = [] then None else Some (set cs)) of
        Inl e \<Rightarrow> (Some e, fs)
      | Inr ds \<Rightarrow>
          if ds = [] then
            (Some (SystemExit ''No datasets found in the provided data directory''), fs)
          else
            (case run_datasets rt (abspath rt (data_dir a)) (abspath rt (output_dir a)) ds
                    ([], [], fs) of
               (Some e, (summary_rows, per_coin_entries, fs')) \<Rightarrow> (Some e, fs')
             | (None, (summary_rows, per_coin_entries, fs')) \<Rightarrow>
                 (None,
                  if per_coin_logs a
                  then write_all_coin_logs (abspath rt (output_dir a)) per_coin_entries
                         (write_summary (abspath rt (output_dir a)) summary_rows fs')
                  else write_summary (abspath rt (output_dir a)) summary_rows fs')))"
  by (simp add: main_def Let_def split: sum.splits prod.splits option.splits)

text \<open>
  Claim C4. The claim says that a root that does not exist ends the run with the
  no-datasets condition, as a root without datasets does. The listing of a missing
  root raises, and \<^verbatim>\<open>main\<close> does not catch it. As amended: when discovery returns no
  dataset (as it does when no timeframe directory of the root holds a coin directory
  that passes the filter, so also on a root with no entry), the run ends with
  \<^verbatim>\<open>SystemExit("No datasets found in the provided data directory")\<close>, exit status 1,
  and the output tree is untouched; when the root cannot be listed, the run ends with
  the exception of the listing, exit status 1, and the output tree is untouched.
\<close>

theorem main_no_datasets:
  assumes "data_root = abspath rt (data_dir a)"
    and "allowed_coins =
           (case coin_option a of None \<Rightarrow> None
            | Some cs \<Rightarrow> if cs = [] then None else Some (set cs))"
  shows "(discover_datasets rt data_root allowed_coins = Inr [] \<longrightarrow>
            main rt a fs =
              (Some (SystemExit ''No datasets found in the provided data directory''), fs) \<and>
            exit_status (fst (main rt a fs)) = 1) \<and>
         (listdir rt data_root = Inr tfs \<and> distinct tfs \<and>
          (\<forall>tf\<in>set tfs. isdir rt (path_join data_root tf) \<longrightarrow>
             \<not> isl (listdir rt (path_join data_root tf)) \<and>
             (\<forall>coin\<in>set (projr (listdir rt (path_join data_root tf))).
                filtered_out allowed_coins coin \<or>
                \<not> isdir rt (path_join (path_join data_root tf) coin))) \<longrightarrow>
            discover_datasets rt data_root allowed_coins = Inr []) \<and>
         (listdir rt data_root = Inl e \<longrightarrow>
            main rt a fs = (Some e, fs) \<and> exit_status (fst (main rt a fs)) = 1)"
proof -
  have a: "main rt a fs =
              (Some (SystemExit ''No datasets found in the provided data directory''), fs) \<and>
            exit_status (fst (main rt a fs)) = 1"
    if "discover_datasets rt data_root allowed_coins = Inr []"
    using that assms by (simp add: main_cases exit_status_def)
  have b: "discover_datasets rt data_root allowed_coins = Inr []"
    if l: "listdir rt data_root = Inr tfs" and d: "distinct tfs"
      and sub: "\<forall>tf\<in>set tfs. isdir rt (path_join data_root tf) \<longrightarrow>
             \<not> isl (listdir rt (path_join data_root tf)) \<and>
             (\<forall>coin\<in>set (projr (listdir rt (path_join data_root tf))).
                filtered_out allowed_coins coin \<or>
                \<not> isdir rt (path_join (path_join data_root tf) coin))"
  proof -
    from sub have ok: "\<forall>tf\<in>set tfs. isdir rt (path_join data_root tf) \<longrightarrow>
             \<not> isl (listdir rt (path_join data_root tf))"
      by blast
    from sub have "found rt data_root allowed_coins (sort tfs) = []"
      by (intro found_empty) simp
    with discover_datasets_eq [OF l d ok, of allowed_coins] show ?thesis by simp
  qed
  have c: "main rt a fs = (Some e, fs) \<and> exit_status (fst (main rt a fs)) = 1"
    if "listdir rt data_root = Inl e"
  proof -
    from that have "discover_datasets rt data_root allowed_coins = Inl e"
      by (simp add: discover_datasets_def raising_def)
    then show ?thesis using assms by (simp add: main_cases exit_status_def)
  qed
  from a b c show ?thesis by blast
qed

text \<open>An empty root, and a root whose coins are all filtered out.\<close>

theorem main_no_datasets_witness:
  "listdir sample_runtime ''/empty'' = Inr [] \<and>
   main sample_runtime
     \<lparr>data_dir = ''/empty'', output_dir = ''/out'', per_coin_logs = False, coin_option = None\<rparr>
     Map.empty =
     (Some (SystemExit ''No datasets found in the provided data directory''), Map.empty) \<and>
   exit_status (fst (main sample_runtime
     \<lparr>data_dir = ''/empty'', output_dir = ''/out'', per_coin_logs = False, coin_option = None\<rparr>
     Map.empty)) = 1 \<and>
   discover_datasets sample_runtime ''/data'' (Some {''DOGE''}) = Inr [] \<and>
   main sample_runtime
     \<lparr>data_dir = ''/data'', output_dir = ''/out'', per_coin_logs = True,
      coin_option = Some [''DOGE'']\<rparr>
     Map.empty =
     (Some (SystemExit ''No datasets found in the provided data directory''), Map.empty)"
proof -
  let ?a = "\<lparr>data_dir = ''/empty'', output_dir = ''/out'', per_coin_logs = False,
             coin_option = None\<rparr>"
  let ?b = "\<lparr>data_dir = ''/data'', output_dir = ''/out'', per_coin_logs = True,
             coin_option = Some [''DOGE'']\<rparr>"
  have r: "''/empty'' = abspath sample_runtime (data_dir ?a)"
    by (simp add: sample_abspath)
  have c: "None = (case coin_option ?a of None \<Rightarrow> None
                   | Some cs \<Rightarrow> if cs = [] then None else Some (set cs))"
    by simp
  have r': "''/data'' = abspath sample_runtime (data_dir ?b)"
    by (simp add: sample_abspath)
  have c': "Some {''DOGE''} = (case coin_option ?b of None \<Rightarrow> None
                   | Some cs \<Rightarrow> if cs = [] then None else Some (set cs))"
    by simp
  have d: "discover_datasets sample_runtime ''/data'' (Some {''DOGE''}) = Inr []"
    by code_simp
  show ?thesis
    using main_no_datasets [OF r c, of Map.empty] main_no_datasets [OF r' c', of Map.empty] d
    by (simp add: sample_listing sample_discover exit_status_def)
qed

text \<open>On a root that does not exist the run ends with \<^verbatim>\<open>FileNotFoundError\<close>.\<close>

theorem missing_root_counterexample:
  "fst (main sample_runtime
     \<lparr>data_dir = ''/missing'', output_dir = ''/out'', per_coin_logs = False,
      coin_option = None\<rparr> Map.empty) = Some FileNotFoundError \<and>
   fst (main sample_runtime
     \<lparr>data_dir = ''/missing'', output_dir = ''/out'', per_coin_logs = False,
      coin_option = None\<rparr> Map.empty) \<noteq>
     Some (SystemExit ''No datasets found in the provided data directory'')"
proof -
  have "discover_datasets sample_runtime
          (abspath sample_runtime ''/missing'') None = Inl FileNotFoundError"
    by (simp add: sample_discover sample_abspath)
  then show ?thesis by (simp add: main_cases)
qed

end
